theory Spec2Isabelle
  imports Main "HOL-Library.Sublist"
begin

section \<open>The JioSaavn client of \<^verbatim>\<open>app.py\<close>\<close>

text \<open>
  This theory embeds the class \<^verbatim>\<open>SaavnApiService\<close> of \<^verbatim>\<open>src/app.py\<close>: the static
  methods \<^verbatim>\<open>search_songs\<close> and \<^verbatim>\<open>get_streaming_url\<close>, together with the Python
  operations on strings and on decoded JSON values that they use.

  Conventions.
  \<^item> A Python \<^verbatim>\<open>str\<close> is a \<open>string\<close>, one \<open>char\<close> per code point; only the code points
    below 256 are representable. Every string constant of the source is ASCII.
  \<^item> A raised exception is the left summand of \<open>exn + 'a\<close>. Everything that
    \<^verbatim>\<open>except Exception\<close> catches is an \<open>exn\<close>.
  \<^item> \<^verbatim>\<open>requests.get\<close> and \<^verbatim>\<open>json.loads\<close> are library code outside the repository. They
    are parameters of the model: \<open>get\<close> maps a request URL to the response or to the
    exception raised, \<open>loads\<close> maps a text to the decoded value or to the exception
    raised. The theorems hold for every such pair unless a hypothesis says otherwise.
  \<^item> Each operation also returns the list of URLs handed to \<^verbatim>\<open>requests.get\<close>, in order,
    so that the number and the shape of the outbound requests can be stated.
\<close>

subsection \<open>Exceptions and decoded JSON values\<close>

datatype exn =
    Exception string
  | TypeError
  | KeyError
  | IndexError
  | AttributeError
  | JSONDecodeError
  | RequestException

text \<open>
  What \<^verbatim>\<open>json.loads\<close> returns: \<^verbatim>\<open>None\<close>, \<^verbatim>\<open>bool\<close>, \<^verbatim>\<open>int\<close>, \<^verbatim>\<open>float\<close> (kept as its
  literal, the code never computes with it), \<^verbatim>\<open>str\<close>, \<^verbatim>\<open>list\<close> and \<^verbatim>\<open>dict\<close>. A dict is an
  association list read with \<open>map_of\<close>; its keys are strings.
\<close>

datatype json =
    JNull
  | JBool bool
  | JInt int
  | JFloat string
  | JStr string
  | JList "json list"
  | JDict "(string \<times> json) list"

record response =
  status_code :: int
  response_text :: string

type_synonym http_get = "string \<Rightarrow> exn + response"
type_synonym json_loads = "string \<Rightarrow> exn + json"

text \<open>Sequencing of statements that may raise: the first exception ends the block.\<close>

definition and_then :: "exn + 'a \<Rightarrow> ('a \<Rightarrow> exn + 'b) \<Rightarrow> exn + 'b" where
  "and_then m f = (case m of Inl e \<Rightarrow> Inl e | Inr x \<Rightarrow> f x)"

subsection \<open>Python string operations\<close>

text \<open>\<^verbatim>\<open>s.find(sub)\<close>: the lowest index at which \<open>sub\<close> occurs in \<open>s\<close>, or \<open>-1\<close>.\<close>

fun py_find :: "string \<Rightarrow> string \<Rightarrow> int" where
  "py_find sub [] = (if sub = [] then 0 else - 1)"
| "py_find sub (c # cs) =
     (if prefix sub (c # cs) then 0
      else (let k = py_find sub cs in if k < 0 then - 1 else k + 1))"

text \<open>\<^verbatim>\<open>s[i:]\<close>: a negative start counts from the end, and the start is clipped to the string.\<close>

definition py_slice_from :: "int \<Rightarrow> string \<Rightarrow> string" where
  "py_slice_from i s =
     (let n = int (length s);
          start = (if i < 0 then max 0 (n + i) else min i n)
      in drop (nat start) s)"

text \<open>
  \<^verbatim>\<open>s.replace(old, new)\<close>: every non-overlapping occurrence of \<open>old\<close>, found from left to
  right, is replaced by \<open>new\<close>. With an empty \<open>old\<close>, \<open>new\<close> is inserted before every
  character and at the end.
\<close>

fun py_replace :: "string \<Rightarrow> string \<Rightarrow> string \<Rightarrow> string" where
  "py_replace old new [] = (if old = [] then new else [])"
| "py_replace old new (c # cs) =
     (if old = [] then new @ c # py_replace old new cs
      else if prefix old (c # cs)
        then new @ py_replace old new (drop (length old) (c # cs))
      else c # py_replace old new cs)"

text \<open>
  \<^verbatim>\<open>urllib.parse.quote(s)\<close> with the default \<^verbatim>\<open>safe='/'\<close>: the string is encoded in UTF-8,
  and every byte that is not a letter, a digit, one of \<^verbatim>\<open>_.-~\<close> or \<^verbatim>\<open>/\<close> becomes \<^verbatim>\<open>%XX\<close>
  with upper-case hexadecimal digits.
\<close>

definition always_safe :: "char \<Rightarrow> bool" where
  "always_safe c \<longleftrightarrow>
     c \<in> set ''ABCDEFGHIJKLMNOPQRSTUVWXYZabcdefghijklmnopqrstuvwxyz0123456789_.-~''"

definition hex_digit :: "nat \<Rightarrow> char" where
  "hex_digit n = ''0123456789ABCDEF'' ! (n mod 16)"

definition utf8_encode :: "char \<Rightarrow> nat list" where
  "utf8_encode c =
     (let n = (of_char c :: nat)
      in if n < 128 then [n] else [192 + n div 64, 128 + n mod 64])"

definition quote_byte :: "nat \<Rightarrow> string" where
  "quote_byte b =
     (if b < 128 \<and> (always_safe (char_of b) \<or> char_of b = CHR ''/'')
      then [char_of b]
      else [CHR ''%'', hex_digit (b div 16), hex_digit (b mod 16)])"

definition quote :: "string \<Rightarrow> string" where
  "quote s = concat (map (\<lambda>c. concat (map quote_byte (utf8_encode c))) s)"

text \<open>
  \<^verbatim>\<open>quote\<close> applied to a decoded JSON value: anything but a \<^verbatim>\<open>str\<close> (or bytes, which
  \<^verbatim>\<open>json.loads\<close> never yields) raises \<^verbatim>\<open>TypeError\<close>.
\<close>

fun quote_value :: "json \<Rightarrow> exn + string" where
  "quote_value (JStr s) = Inr (quote s)"
| "quote_value _ = Inl TypeError"

subsection \<open>Python operations on decoded JSON values\<close>

text \<open>\<^verbatim>\<open>key in x\<close> for a string \<open>key\<close>.\<close>

fun py_contains :: "string \<Rightarrow> json \<Rightarrow> exn + bool" where
  "py_contains k (JDict d) = Inr (map_of d k \<noteq> None)"
| "py_contains k (JList xs) = Inr (List.member xs (JStr k))"
| "py_contains k (JStr s) = Inr (sublist k s)"
| "py_contains k _ = Inl TypeError"

text \<open>\<^verbatim>\<open>len(x)\<close>.\<close>

fun py_len :: "json \<Rightarrow> exn + nat" where
  "py_len (JDict d) = Inr (length (remdups (map fst d)))"
| "py_len (JList xs) = Inr (length xs)"
| "py_len (JStr s) = Inr (length s)"
| "py_len _ = Inl TypeError"

text \<open>\<^verbatim>\<open>x[key]\<close> for a string \<open>key\<close>.\<close>

fun py_getitem :: "json \<Rightarrow> string \<Rightarrow> exn + json" where
  "py_getitem (JDict d) k = (case map_of d k of None \<Rightarrow> Inl KeyError | Some v \<Rightarrow> Inr v)"
| "py_getitem _ k = Inl TypeError"

text \<open>\<^verbatim>\<open>x[0]\<close>. A dict decoded from JSON has string keys only, so \<open>0\<close> is never a key.\<close>

fun py_first :: "json \<Rightarrow> exn + json" where
  "py_first (JList xs) = (case xs of [] \<Rightarrow> Inl IndexError | x # _ \<Rightarrow> Inr x)"
| "py_first (JStr s) = (case s of [] \<Rightarrow> Inl IndexError | c # _ \<Rightarrow> Inr (JStr [c]))"
| "py_first (JDict d) = Inl KeyError"
| "py_first _ = Inl TypeError"

text \<open>\<^verbatim>\<open>x.get(key, default)\<close>: only a dict has the method.\<close>

fun py_get :: "json \<Rightarrow> string \<Rightarrow> json \<Rightarrow> exn + json" where
  "py_get (JDict d) k dflt = Inr (case map_of d k of None \<Rightarrow> dflt | Some v \<Rightarrow> v)"
| "py_get _ k dflt = Inl AttributeError"

subsection \<open>\<^verbatim>\<open>SaavnApiService\<close>\<close>

definition BASE_URL :: string where
  "BASE_URL = ''https://www.jiosaavn.com/api.php''"

definition API_PARAMS :: string where
  "API_PARAMS = ''&_format=json&_marker=0&api_version=4&ctx=web6dot0''"

subsubsection \<open>\<^verbatim>\<open>search_songs\<close>\<close>

definition search_url :: "string \<Rightarrow> string" where
  "search_url query =
     BASE_URL @ ''?__call=search.getResults&q='' @ quote query @ API_PARAMS"

text \<open>Line 29: \<^verbatim>\<open>response.text[response.text.find('{'):]\<close>.\<close>

definition clean_json :: "string \<Rightarrow> string" where
  "clean_json t = py_slice_from (py_find ''{'' t) t"

text \<open>The body of the \<^verbatim>\<open>try\<close> block of \<^verbatim>\<open>search_songs\<close>.\<close>

definition search_try :: "http_get \<Rightarrow> json_loads \<Rightarrow> string \<Rightarrow> exn + json" where
  "search_try get loads url =
     and_then (get url) (\<lambda>response.
       if status_code response = 200 then
         and_then (loads (clean_json (response_text response))) (\<lambda>data.
           py_get data ''results'' (JList []))
       else Inl (Exception ''Failed to search songs''))"

text \<open>
  \<^verbatim>\<open>search_songs\<close>: the outcome (\<open>Inl\<close> would be an exception that leaves the method) and
  the requests made.
\<close>

definition search_songs ::
  "http_get \<Rightarrow> json_loads \<Rightarrow> string \<Rightarrow> (exn + json) \<times> string list" where
  "search_songs get loads query =
     (let url = search_url query
      in (case search_try get loads url of
            Inl e \<Rightarrow> Inr (JList [])
          | Inr results \<Rightarrow> Inr results,
          [url]))"

subsubsection \<open>\<^verbatim>\<open>get_streaming_url\<close>\<close>

definition details_url :: "string \<Rightarrow> string" where
  "details_url song_id =
     BASE_URL @ ''?__call=song.getDetails&pids='' @ song_id @ API_PARAMS"

definition token_url :: "string \<Rightarrow> string" where
  "token_url encoded_encrypted_url =
     BASE_URL @ ''?__call=song.generateAuthToken&url='' @ encoded_encrypted_url
       @ ''&bitrate=320'' @ API_PARAMS"

text \<open>Line 73: the two chained \<^verbatim>\<open>replace\<close> calls.\<close>

definition transform_url :: "string \<Rightarrow> string" where
  "transform_url stream_url =
     py_replace ''_96.mp4'' ''_320.mp4''
       (py_replace ''web.saavncdn.com'' ''aac.saavncdn.com'' stream_url)"

text \<open>The body of the first \<^verbatim>\<open>try\<close> block: it yields the value bound to \<^verbatim>\<open>encrypted_url\<close>.\<close>

definition details_try :: "http_get \<Rightarrow> json_loads \<Rightarrow> string \<Rightarrow> exn + json" where
  "details_try get loads url =
     and_then (get url) (\<lambda>details_response.
     and_then (loads (response_text details_response)) (\<lambda>details_data.
     and_then (py_contains ''songs'' details_data) (\<lambda>has_songs.
       if \<not> has_songs then Inl (Exception ''Song data not found'')
       else
         and_then (py_getitem details_data ''songs'') (\<lambda>songs.
         and_then (py_len songs) (\<lambda>n.
           if n > 0 then
             and_then (py_first songs) (\<lambda>song_data.
             and_then (py_get song_data ''more_info'' (JDict [])) (\<lambda>more_info.
             and_then (py_contains ''encrypted_media_url'' more_info) (\<lambda>has_url.
               if has_url then py_getitem more_info ''encrypted_media_url''
               else Inl (Exception ''Encrypted media URL not found''))))
           else Inl (Exception ''Song data not found''))))))"

text \<open>The body of the second \<^verbatim>\<open>try\<close> block.\<close>

definition token_try :: "http_get \<Rightarrow> json_loads \<Rightarrow> string \<Rightarrow> exn + string" where
  "token_try get loads url =
     and_then (get url) (\<lambda>token_response.
     and_then (loads (response_text token_response)) (\<lambda>token_data.
     and_then (py_get token_data ''auth_url'' JNull) (\<lambda>auth_url.
       case auth_url of
         JStr stream_url \<Rightarrow> Inr (transform_url stream_url)
       | _ \<Rightarrow> Inl (Exception ''Failed to get auth_url, token may have expired''))))"

definition get_streaming_url ::
  "http_get \<Rightarrow> json_loads \<Rightarrow> string \<Rightarrow> (exn + string) \<times> string list" where
  "get_streaming_url get loads song_id =
     (let d_url = details_url song_id
      in case details_try get loads d_url of
           Inl e \<Rightarrow> (Inl (Exception ''Could not get song details''), [d_url])
         | Inr encrypted_url \<Rightarrow>
             (case quote_value encrypted_url of
                Inl e \<Rightarrow> (Inl e, [d_url])
              | Inr encoded_encrypted_url \<Rightarrow>
                  (let t_url = token_url encoded_encrypted_url
                   in (case token_try get loads t_url of
                         Inl e \<Rightarrow> Inl (Exception ''Could not generate streaming URL'')
                       | Inr stream_url \<Rightarrow> Inr stream_url,
                       [d_url, t_url]))))"

text \<open>The two failure conditions of the specification, as the code raises them.\<close>

definition DetailsNotFound :: exn where
  "DetailsNotFound = Exception ''Could not get song details''"

definition TokenExpiredOrInvalid :: exn where
  "TokenExpiredOrInvalid = Exception ''Could not generate streaming URL''"

subsection \<open>Conditions on a pattern and its replacement\<close>

text \<open>
  Three decidable conditions on concrete strings, used to show that a replacement leaves
  no occurrence of a pattern behind. \<open>no_self_overlap old new\<close>: no proper suffix of
  \<open>old\<close> is a prefix of \<open>new\<close>. \<open>no_new_overlap old new\<close>: no occurrence of \<open>old\<close> can
  start inside \<open>new\<close>. \<open>foreign_block p new\<close>: \<open>new\<close> begins and ends with characters that
  \<open>p\<close> does not contain, and \<open>p\<close> does not occur strictly inside \<open>new\<close>.
\<close>

definition no_self_overlap :: "string \<Rightarrow> string \<Rightarrow> bool" where
  "no_self_overlap old new \<longleftrightarrow>
     length old \<le> Suc (length new) \<and>
     (\<forall>k \<in> {1..<length old}. \<not> prefix (drop k old) new)"

definition no_new_overlap :: "string \<Rightarrow> string \<Rightarrow> bool" where
  "no_new_overlap old new \<longleftrightarrow>
     (\<forall>j \<in> {0..<length new}. \<not> prefix old (drop j new) \<and> \<not> prefix (drop j new) old)"

definition foreign_block :: "string \<Rightarrow> string \<Rightarrow> bool" where
  "foreign_block p new \<longleftrightarrow>
     new \<noteq> [] \<and> hd new \<notin> set p \<and> last new \<notin> set p \<and> \<not> sublist p (butlast (tl new))"

text \<open>
  The reading of the specification in which a substitution touches the first occurrence
  of its pattern only; it is compared with \<open>py_replace\<close> below.
\<close>

fun replace_first :: "string \<Rightarrow> string \<Rightarrow> string \<Rightarrow> string" where
  "replace_first old new [] = []"
| "replace_first old new (c # cs) =
     (if prefix old (c # cs) then new @ drop (length old) (c # cs)
      else c # replace_first old new cs)"

definition transform_url_first :: "string \<Rightarrow> string" where
  "transform_url_first stream_url =
     replace_first ''_96.mp4'' ''_320.mp4''
       (replace_first ''web.saavncdn.com'' ''aac.saavncdn.com'' stream_url)"

section \<open>Properties of the string operations\<close>

subsection \<open>\<open>find\<close> and \<open>replace\<close>\<close>

lemma py_replace_absent:
  "\<not> sublist old s \<Longrightarrow> py_replace old new s = s"
proof (induction s)
  case Nil
  then show ?case by auto
next
  case (Cons c cs)
  then have "old \<noteq> []" "\<not> prefix old (c # cs)" "\<not> sublist old cs"
    by (auto simp: sublist_Cons_right)
  with Cons.IH show ?case by simp
qed

lemma py_find_ge: "- 1 \<le> py_find sub s"
  by (induction s) (auto simp: Let_def)

lemma py_find_absent: "py_find sub s = - 1 \<longleftrightarrow> \<not> sublist sub s"
proof (induction s)
  case Nil
  then show ?case by auto
next
  case (Cons c cs)
  have "- 1 \<le> py_find sub cs" by (rule py_find_ge)
  with Cons show ?case
    by (auto simp: Let_def sublist_Cons_right)
qed

lemma prefix_append_short:
  "prefix xs (ys @ zs) \<Longrightarrow> length xs \<le> length ys \<Longrightarrow> prefix xs ys"
  by (auto simp: prefix_append)

lemma py_replace_at_prefix:
  "old \<noteq> [] \<Longrightarrow> py_replace old new (old @ b) = new @ py_replace old new b"
  by (cases old) auto

lemma py_replace_first_occurrence:
  assumes "old \<noteq> []" and "\<not> sublist old (a @ butlast old)"
  shows "py_replace old new (a @ old @ b) = a @ new @ py_replace old new b"
  using assms
proof (induction a)
  case Nil
  then show ?case by (simp add: py_replace_at_prefix)
next
  case (Cons x a)
  have "\<not> prefix old (x # a @ old @ b)"
  proof
    assume p: "prefix old (x # a @ old @ b)"
    have "x # a @ old @ b = ((x # a) @ butlast old) @ (last old # b)"
      using \<open>old \<noteq> []\<close> by simp
    with p have "prefix old (((x # a) @ butlast old) @ (last old # b))"
      by simp
    then have "prefix old ((x # a) @ butlast old)"
      by (rule prefix_append_short) simp
    with Cons.prems show False by auto
  qed
  moreover have "\<not> sublist old (a @ butlast old)"
    using Cons.prems by (auto simp: sublist_Cons_right)
  ultimately show ?case using Cons by simp
qed

lemma prefix_append_split:
  "prefix xs (ys @ zs) \<Longrightarrow> prefix xs ys \<or> prefix ys xs"
  by (auto simp: prefix_append)

lemma prefix_reflect:
  assumes "old \<noteq> []" and "no_self_overlap old new"
  shows "prefix old (a @ py_replace old new s) \<Longrightarrow> prefix old (a @ s)"
  using assms
proof (induction old new s arbitrary: a rule: py_replace.induct)
  case (1 old new)
  then show ?case by simp
next
  case (2 old new c cs)
  show ?case
  proof (cases "prefix old (c # cs)")
    case True
    then obtain rest where rest: "c # cs = old @ rest"
      by (auto simp: prefix_def)
    then have dr: "drop (length old) (c # cs) = rest" by simp
    from 2 True have p: "prefix old (a @ new @ py_replace old new rest)"
      by (simp add: dr)
    show ?thesis
    proof (cases "length old \<le> length a")
      case True
      with p have "prefix old a" by (rule prefix_append_short[rotated -1, rotated])
      then show ?thesis by (simp add: prefix_def) auto
    next
      case False
      then have la: "length a < length old" by simp
      show ?thesis
      proof (cases "a = []")
        case True
        then show ?thesis using rest by simp
      next
        case False
        from p have "prefix old a \<or> (\<exists>us. old = a @ us \<and> prefix us (new @ py_replace old new rest))"
          by (simp only: prefix_append)
        moreover have "\<not> prefix old a"
          using la prefix_length_le by fastforce
        ultimately obtain us where us: "old = a @ us" "prefix us (new @ py_replace old new rest)"
          by blast
        then have "us = drop (length a) old" by simp
        moreover have "length us \<le> length new"
          using us(1) False \<open>no_self_overlap old new\<close>
          by (cases a) (auto simp: no_self_overlap_def)
        ultimately have "prefix (drop (length a) old) new"
          using us(2) prefix_append_short by blast
        moreover have "length a \<in> {1..<length old}"
          using la False by (cases a) auto
        ultimately show ?thesis
          using \<open>no_self_overlap old new\<close> by (auto simp: no_self_overlap_def)
      qed
    qed
  next
    case False
    with 2 have "prefix old ((a @ [c]) @ py_replace old new cs)" by simp
    with 2 False have "prefix old ((a @ [c]) @ cs)" by blast
    then show ?thesis by simp
  qed
qed

lemma sublist_append_left_cases:
  "sublist p (new @ ys) \<Longrightarrow> (\<exists>j<length new. prefix p (drop j new @ ys)) \<or> sublist p ys"
proof (induction new)
  case Nil
  then show ?case by simp
next
  case (Cons x xs)
  from Cons.prems have "prefix p (x # xs @ ys) \<or> sublist p (xs @ ys)"
    by (simp add: sublist_Cons_right)
  then show ?case
  proof
    assume "prefix p (x # xs @ ys)"
    then have "prefix p (drop 0 (x # xs) @ ys)" by simp
    then show ?thesis by blast
  next
    assume "sublist p (xs @ ys)"
    with Cons.IH have "(\<exists>j<length xs. prefix p (drop j xs @ ys)) \<or> sublist p ys" by simp
    then show ?thesis
    proof
      assume "\<exists>j<length xs. prefix p (drop j xs @ ys)"
      then obtain j where "j < length xs" "prefix p (drop j xs @ ys)" by blast
      then have "Suc j < length (x # xs)" "prefix p (drop (Suc j) (x # xs) @ ys)" by simp_all
      then show ?thesis by blast
    qed simp
  qed
qed

lemma py_replace_removes_old:
  assumes "old \<noteq> []" and "no_self_overlap old new" and "no_new_overlap old new"
  shows "\<not> sublist old (py_replace old new s)"
  using assms
proof (induction old new s rule: py_replace.induct)
  case (1 old new)
  then show ?case by simp
next
  case (2 old new c cs)
  show ?case
  proof (cases "prefix old (c # cs)")
    case True
    let ?rest = "py_replace old new (drop (length old) (c # cs))"
    from 2 True have ih: "\<not> sublist old ?rest" by simp
    have "\<not> sublist old (new @ ?rest)"
    proof
      assume "sublist old (new @ ?rest)"
      with ih obtain j where j: "j < length new" "prefix old (drop j new @ ?rest)"
        using sublist_append_left_cases by blast
      then have "prefix old (drop j new) \<or> prefix (drop j new) old"
        by (rule_tac prefix_append_split)
      with j(1) \<open>no_new_overlap old new\<close> show False
        by (auto simp: no_new_overlap_def)
    qed
    with 2 True show ?thesis by simp
  next
    case False
    with 2 have ih: "\<not> sublist old (py_replace old new cs)" by simp
    have "\<not> prefix old (c # py_replace old new cs)"
    proof
      assume "prefix old (c # py_replace old new cs)"
      then have "prefix old ([c] @ py_replace old new cs)" by simp
      with 2 have "prefix old ([c] @ cs)" using prefix_reflect by blast
      with False show False by simp
    qed
    with ih 2 False show ?thesis by (simp add: sublist_Cons_right)
  qed
qed

lemma sublist_foreign_char:
  assumes "x \<notin> set p" and "sublist p (a @ x # b)"
  shows "sublist p a \<or> sublist p b"
proof -
  from assms(2) have "sublist p a \<or> sublist p (x # b) \<or>
      (\<exists>xs1 xs2. p = xs1 @ xs2 \<and> suffix xs1 a \<and> prefix xs2 (x # b))"
    by (simp only: sublist_append)
  moreover have "sublist p (x # b) \<Longrightarrow> sublist p a \<or> sublist p b"
    using assms(1) by (cases p) (auto simp: sublist_Cons_right)
  moreover have "p = xs1 @ xs2 \<Longrightarrow> suffix xs1 a \<Longrightarrow> prefix xs2 (x # b) \<Longrightarrow> sublist p a" for xs1 xs2
    using assms(1) by (cases xs2) auto
  ultimately show ?thesis by blast
qed

lemma sublist_foreign_block:
  assumes "foreign_block p new" and "sublist p (a @ new @ b)"
  shows "sublist p a \<or> sublist p b"
proof -
  from assms(1) obtain x m where new: "new = x # m" and x: "x \<notin> set p"
    by (cases new) (auto simp: foreign_block_def)
  from assms(2) have "sublist p (a @ x # (m @ b))" by (simp add: new)
  with x have 1: "sublist p a \<or> sublist p (m @ b)" by (rule sublist_foreign_char)
  show ?thesis
  proof (cases "m = []")
    case True
    with 1 show ?thesis by simp
  next
    case False
    then have m: "m = butlast m @ [last m]" by simp
    from False assms(1) have y: "last m \<notin> set p" and bm: "\<not> sublist p (butlast m)"
      by (simp_all add: foreign_block_def new)
    have "m @ b = butlast m @ last m # b" by (subst m) simp
    then have "sublist p (m @ b) \<Longrightarrow> sublist p (butlast m) \<or> sublist p b"
      using sublist_foreign_char[OF y, of "butlast m" b] by simp
    with 1 bm show ?thesis by blast
  qed
qed

lemma py_replace_creates_no:
  assumes "old \<noteq> []" and "foreign_block p new"
  shows "sublist p (a @ py_replace old new s) \<Longrightarrow> sublist p (a @ s)"
  using assms
proof (induction old new s arbitrary: a rule: py_replace.induct)
  case (1 old new)
  then show ?case by simp
next
  case (2 old new c cs)
  show ?case
  proof (cases "prefix old (c # cs)")
    case True
    then obtain rest where rest: "c # cs = old @ rest"
      by (auto simp: prefix_def)
    then have dr: "drop (length old) (c # cs) = rest" by simp
    from 2 True have "sublist p ((a @ new) @ py_replace old new rest)"
      by (simp add: dr)
    with 2 True dr have "sublist p ((a @ new) @ rest)" by metis
    then have "sublist p a \<or> sublist p rest"
      using sublist_foreign_block[OF \<open>foreign_block p new\<close>, of a rest] by simp
    then have "sublist p (a @ old @ rest)"
      by (metis sublist_order.order.trans sublist_appendI sublist_append_rightI sublist_append_leftI)
    then show ?thesis by (simp only: rest)
  next
    case False
    with 2 have "sublist p ((a @ [c]) @ py_replace old new cs)" by simp
    with 2 False have "sublist p ((a @ [c]) @ cs)" by blast
    then show ?thesis by simp
  qed
qed

subsection \<open>The two substitutions of \<open>transform_url\<close>\<close>

lemma host_no_self_overlap: "no_self_overlap ''web.saavncdn.com'' ''aac.saavncdn.com''"
  by code_simp

lemma host_no_new_overlap: "no_new_overlap ''web.saavncdn.com'' ''aac.saavncdn.com''"
  by code_simp

lemma rate_no_self_overlap: "no_self_overlap ''_96.mp4'' ''_320.mp4''"
  by code_simp

lemma rate_no_new_overlap: "no_new_overlap ''_96.mp4'' ''_320.mp4''"
  by code_simp

lemma rate_foreign_block: "foreign_block ''web.saavncdn.com'' ''_320.mp4''"
  by code_simp

lemma transform_url_clean:
  "\<not> sublist ''web.saavncdn.com'' (transform_url s)"
  "\<not> sublist ''_96.mp4'' (transform_url s)"
proof -
  let ?u = "py_replace ''web.saavncdn.com'' ''aac.saavncdn.com'' s"
  have u: "\<not> sublist ''web.saavncdn.com'' ?u"
    by (rule py_replace_removes_old[OF _ host_no_self_overlap host_no_new_overlap]) simp
  have "sublist ''web.saavncdn.com'' ([] @ py_replace ''_96.mp4'' ''_320.mp4'' ?u)
        \<Longrightarrow> sublist ''web.saavncdn.com'' ([] @ ?u)"
    by (rule py_replace_creates_no[OF _ rate_foreign_block]) simp_all
  with u show "\<not> sublist ''web.saavncdn.com'' (transform_url s)"
    unfolding transform_url_def by auto
  show "\<not> sublist ''_96.mp4'' (transform_url s)"
    unfolding transform_url_def
    by (rule py_replace_removes_old[OF _ rate_no_self_overlap rate_no_new_overlap]) simp
qed

lemma transform_url_absent:
  "\<not> sublist ''web.saavncdn.com'' s \<Longrightarrow> \<not> sublist ''_96.mp4'' s \<Longrightarrow> transform_url s = s"
  by (simp add: transform_url_def py_replace_absent)

lemma transform_url_idem: "transform_url (transform_url s) = transform_url s"
  by (rule transform_url_absent) (rule transform_url_clean)+

section \<open>The URL transformation\<close>

text \<open>
  Claim C7. The URL transformation depends on its argument only and is idempotent:
  applying it twice to any \<open>auth_url\<close> gives what applying it once gives. The input
  \<^verbatim>\<open>https://web.saavncdn.com/track_96.mp4?x=1\<close> maps to
  \<^verbatim>\<open>https://aac.saavncdn.com/track_320.mp4?x=1\<close>, and an input that contains neither
  \<^verbatim>\<open>web.saavncdn.com\<close> nor \<^verbatim>\<open>_96.mp4\<close> is returned unchanged.
\<close>

theorem transform_url_idempotent:
  "transform_url (transform_url s) = transform_url s \<and>
   transform_url ''https://web.saavncdn.com/track_96.mp4?x=1''
     = ''https://aac.saavncdn.com/track_320.mp4?x=1'' \<and>
   (\<not> sublist ''web.saavncdn.com'' s \<and> \<not> sublist ''_96.mp4'' s \<longrightarrow> transform_url s = s)"
proof (intro conjI impI)
  show "transform_url (transform_url s) = transform_url s"
    by (rule transform_url_idem)
  show "transform_url ''https://web.saavncdn.com/track_96.mp4?x=1''
          = ''https://aac.saavncdn.com/track_320.mp4?x=1''"
    by (simp add: transform_url_def)
  show "transform_url s = s"
    if "\<not> sublist ''web.saavncdn.com'' s \<and> \<not> sublist ''_96.mp4'' s"
    using that by (simp add: transform_url_absent)
qed

theorem transform_url_idempotent_witness:
  "(\<not> sublist ''web.saavncdn.com'' ''https://cdn.example.org/a_160.mp4'' \<and>
    \<not> sublist ''_96.mp4'' ''https://cdn.example.org/a_160.mp4'') \<and>
   transform_url ''https://cdn.example.org/a_160.mp4'' = ''https://cdn.example.org/a_160.mp4'' \<and>
   transform_url (transform_url ''https://web.saavncdn.com/web.saavncdn.com_96.mp4_96.mp4'')
     = transform_url ''https://web.saavncdn.com/web.saavncdn.com_96.mp4_96.mp4''"
proof -
  have h: "\<not> sublist ''web.saavncdn.com'' ''https://cdn.example.org/a_160.mp4'' \<and>
           \<not> sublist ''_96.mp4'' ''https://cdn.example.org/a_160.mp4''"
    by code_simp
  from h transform_url_idempotent [of "''https://cdn.example.org/a_160.mp4''"]
    transform_url_idempotent [of "''https://web.saavncdn.com/web.saavncdn.com_96.mp4_96.mp4''"]
  show ?thesis by blast
qed

text \<open>
  Claim C1, as amended. Each of the two substitutions of the final URL transformation
  (\<^verbatim>\<open>web.saavncdn.com\<close> to \<^verbatim>\<open>aac.saavncdn.com\<close>, then \<^verbatim>\<open>_96.mp4\<close> to \<^verbatim>\<open>_320.mp4\<close>) is a
  literal substring replacement applied to every occurrence of its pattern, from left to
  right: where the pattern is absent the string is left as it is; the leftmost occurrence
  is replaced and the replacement goes on in the rest of the string; and no occurrence of
  the pattern is left in the result. The transformation is a total function, so no error
  is raised.
\<close>

theorem substitutions_replace_every_occurrence:
  assumes "(old, new) = (''web.saavncdn.com'', ''aac.saavncdn.com'') \<or>
           (old, new) = (''_96.mp4'', ''_320.mp4'')"
  shows "transform_url s =
           py_replace ''_96.mp4'' ''_320.mp4''
             (py_replace ''web.saavncdn.com'' ''aac.saavncdn.com'' s) \<and>
         (\<not> sublist old t \<longrightarrow> py_replace old new t = t) \<and>
         (\<not> sublist old (a @ butlast old) \<longrightarrow>
            py_replace old new (a @ old @ b) = a @ new @ py_replace old new b) \<and>
         \<not> sublist old (py_replace old new t)"
proof -
  from assms have ne: "old \<noteq> []" by auto
  from assms have ov: "no_self_overlap old new" "no_new_overlap old new"
    using host_no_self_overlap host_no_new_overlap rate_no_self_overlap rate_no_new_overlap
    by auto
  have "\<not> sublist old (py_replace old new t)"
    using ne ov by (rule py_replace_removes_old)
  moreover have "\<not> sublist old (a @ butlast old) \<longrightarrow>
      py_replace old new (a @ old @ b) = a @ new @ py_replace old new b"
    using ne by (simp add: py_replace_first_occurrence)
  moreover have "\<not> sublist old t \<longrightarrow> py_replace old new t = t"
    by (simp add: py_replace_absent)
  ultimately show ?thesis
    by (simp add: transform_url_def)
qed

theorem substitutions_replace_every_occurrence_witness:
  "(\<not> sublist ''_96.mp4'' (''a'' @ butlast ''_96.mp4'') \<and>
    \<not> sublist ''_96.mp4'' ''a_128.mp4'') \<and>
   py_replace ''_96.mp4'' ''_320.mp4'' (''a'' @ ''_96.mp4'' @ ''b_96.mp4'')
     = ''a'' @ ''_320.mp4'' @ py_replace ''_96.mp4'' ''_320.mp4'' ''b_96.mp4'' \<and>
   py_replace ''_96.mp4'' ''_320.mp4'' ''a_128.mp4'' = ''a_128.mp4'' \<and>
   \<not> sublist ''_96.mp4'' (py_replace ''_96.mp4'' ''_320.mp4'' ''a_128.mp4'')"
proof -
  have h0: "(''_96.mp4'', ''_320.mp4'') = (''web.saavncdn.com'', ''aac.saavncdn.com'') \<or>
            (''_96.mp4'', ''_320.mp4'') = (''_96.mp4'', ''_320.mp4'')"
    by simp
  have h1: "\<not> sublist ''_96.mp4'' (''a'' @ butlast ''_96.mp4'')" by code_simp
  have h2: "\<not> sublist ''_96.mp4'' ''a_128.mp4''" by code_simp
  from substitutions_replace_every_occurrence
    [OF h0, of _ "''a_128.mp4''" "''a''" "''b_96.mp4''"] h1 h2
  show ?thesis by blast
qed

text \<open>
  Claim C1 as stated fails: on a string with two occurrences of a pattern the code
  replaces both, while a replacement of the first occurrence only leaves the second.
\<close>

theorem first_occurrence_only_counterexample:
  "transform_url ''https://web.saavncdn.com/web.saavncdn.com/s_96.mp4_96.mp4''
     = ''https://aac.saavncdn.com/aac.saavncdn.com/s_320.mp4_320.mp4'' \<and>
   transform_url_first ''https://web.saavncdn.com/web.saavncdn.com/s_96.mp4_96.mp4''
     = ''https://aac.saavncdn.com/web.saavncdn.com/s_320.mp4_96.mp4'' \<and>
   transform_url ''https://web.saavncdn.com/web.saavncdn.com/s_96.mp4_96.mp4''
     \<noteq> transform_url_first ''https://web.saavncdn.com/web.saavncdn.com/s_96.mp4_96.mp4''"
  by (simp add: transform_url_def transform_url_first_def)

end
